theory Spec2Isabelle
  imports Complex_Main
begin

section \<open>Values, errors and call binding\<close>

text \<open>
  The module \<^verbatim>\<open>wmsget/geom.py\<close> holds two functions, \<^verbatim>\<open>get_dims\<close> and
  \<^verbatim>\<open>split_geom\<close>. Coordinates and resolutions are Python floats; they are modelled
  as real numbers, so every statement below is about exact arithmetic.
  Keyword arguments are dynamically typed, so they are values of \<open>pyval\<close>.
\<close>

datatype pyerror = TypeError | ValueError | UnboundLocalError | ZeroDivisionError

datatype pyval = PyNone | PyInt int | PyFloat real | PyTuple "pyval list"

type_synonym bounds = "real \<times> real \<times> real \<times> real"

type_synonym dims = "bounds \<times> int \<times> int"

type_synonym kwargs = "(string \<times> pyval) list"

text \<open>A value used in arithmetic must be a number; anything else raises \<^verbatim>\<open>TypeError\<close>.\<close>

fun num_of :: "pyval \<Rightarrow> pyerror + real" where
  "num_of (PyInt i) = Inr (of_int i)"
| "num_of (PyFloat r) = Inr r"
| "num_of _ = Inl TypeError"

text \<open>Python's \<^verbatim>\<open>int(x)\<close> on a float truncates towards zero.\<close>

definition py_int :: "real \<Rightarrow> int" where
  "py_int x = (if 0 \<le> x then \<lfloor>x\<rfloor> else \<lceil>x\<rceil>)"

text \<open>
  Binding the keywords of a call \<^verbatim>\<open>get_dims(bounds, **kw)\<close> against the signature
  \<^verbatim>\<open>get_dims(bounds, res=.125, padding=None, min_len=256)\<close>: \<^verbatim>\<open>bounds\<close> is taken by
  the positional argument, a keyword that is no parameter (or names \<^verbatim>\<open>bounds\<close> again)
  raises \<^verbatim>\<open>TypeError\<close>, and a parameter without a keyword takes its default.
\<close>

definition get_dims_keywords :: "string list" where
  "get_dims_keywords = [''res'', ''padding'', ''min_len'']"

definition kw_default :: "kwargs \<Rightarrow> string \<Rightarrow> pyval \<Rightarrow> pyval" where
  "kw_default kw name d = (case map_of kw name of None \<Rightarrow> d | Some v \<Rightarrow> v)"

definition bind_get_dims :: "kwargs \<Rightarrow> pyerror + (pyval \<times> pyval \<times> pyval)" where
  "bind_get_dims kw =
     (if list_all (\<lambda>k. k \<in> set get_dims_keywords) (map fst kw)
      then Inr (kw_default kw ''res'' (PyFloat (1/8)),
                kw_default kw ''padding'' PyNone,
                kw_default kw ''min_len'' (PyInt 256))
      else Inl TypeError)"

section \<open>The dimension resolver\<close>

text \<open>
  The \<^verbatim>\<open>if/elif/elif\<close> chain on \<^verbatim>\<open>padding\<close> at the head of \<^verbatim>\<open>get_dims\<close>. It
  gives \<open>(y_buffer, x_buffer)\<close>. A tuple is unpacked into two names, so another length
  raises \<^verbatim>\<open>ValueError\<close>; a value that is neither \<^verbatim>\<open>None\<close>, an int nor a tuple leaves
  both names unbound, and their first use raises \<^verbatim>\<open>UnboundLocalError\<close>.
\<close>

fun padding_buffers :: "pyval \<Rightarrow> pyerror + (pyval \<times> pyval)" where
  "padding_buffers PyNone = Inr (PyInt 0, PyInt 0)"
| "padding_buffers (PyInt p) = Inr (PyInt p, PyInt p)"
| "padding_buffers (PyTuple [y, x]) = Inr (y, x)"
| "padding_buffers (PyTuple _) = Inl ValueError"
| "padding_buffers (PyFloat _) = Inl UnboundLocalError"

text \<open>
  The part of the body from \<^verbatim>\<open>minx, miny, maxx, maxy = bounds\<close> to the computation of
  \<^verbatim>\<open>width\<close> and \<^verbatim>\<open>height\<close>: the padded bounds, the two pixel counts, and
  \<^verbatim>\<open>min_len\<close> as the number the comparisons use.
\<close>

definition padded_dims :: "bounds \<Rightarrow> pyval \<Rightarrow> pyval \<Rightarrow> pyval \<Rightarrow> pyerror + (dims \<times> real \<times> real)" where
  "padded_dims bnds res padding min_len =
     (case padding_buffers padding of Inl e \<Rightarrow> Inl e | Inr (y_buffer, x_buffer) \<Rightarrow>
     (case bnds of (minx, miny, maxx, maxy) \<Rightarrow>
     (case num_of x_buffer of Inl e \<Rightarrow> Inl e | Inr xb \<Rightarrow>
     (case num_of y_buffer of Inl e \<Rightarrow> Inl e | Inr yb \<Rightarrow>
     (case num_of res of Inl e \<Rightarrow> Inl e | Inr r \<Rightarrow>
      if r = 0 then Inl ZeroDivisionError else
     (case num_of min_len of Inl e \<Rightarrow> Inl e | Inr m \<Rightarrow>
        Inr (((minx - xb, miny - yb, maxx + xb, maxy + yb),
              py_int ((maxx + xb - (minx - xb)) / r),
              py_int ((maxy + yb - (miny - yb)) / r)), r, m)))))))"

text \<open>
  \<^verbatim>\<open>get_dims\<close> itself. When an axis is shorter than \<^verbatim>\<open>min_len\<close> the function calls
  itself with the keywords \<^verbatim>\<open>x_buffer\<close> and \<^verbatim>\<open>y_buffer\<close>; the call is bound like any
  other call of \<^verbatim>\<open>get_dims\<close>.
\<close>

function get_dims :: "bounds \<Rightarrow> pyval \<Rightarrow> pyval \<Rightarrow> pyval \<Rightarrow> pyerror + dims" where
  "get_dims bnds res padding min_len =
     (case padded_dims bnds res padding min_len of Inl e \<Rightarrow> Inl e
      | Inr ((b, width, height), r, m) \<Rightarrow>
        if of_int width < m then
          (case bind_get_dims [(''x_buffer'', PyInt \<lceil>((m - of_int width) / 2) * r\<rceil>),
                               (''y_buffer'', PyInt 0)] of
             Inl e \<Rightarrow> Inl e
           | Inr (res', padding', min_len') \<Rightarrow> get_dims b res' padding' min_len')
        else if of_int height < m then
          (case bind_get_dims [(''x_buffer'', PyInt 0),
                               (''y_buffer'', PyInt \<lceil>((m - of_int height) / 2) * r\<rceil>)] of
             Inl e \<Rightarrow> Inl e
           | Inr (res', padding', min_len') \<Rightarrow> get_dims b res' padding' min_len')
        else Inr (b, width, height))"
  by pat_completeness auto
termination
  by (relation "{}") (auto simp: bind_get_dims_def get_dims_keywords_def)

text \<open>A call \<^verbatim>\<open>get_dims(bounds, **kw)\<close>.\<close>

definition call_get_dims :: "bounds \<Rightarrow> kwargs \<Rightarrow> pyerror + dims" where
  "call_get_dims bnds kw =
     (case bind_get_dims kw of Inl e \<Rightarrow> Inl e
      | Inr (res, padding, min_len) \<Rightarrow> get_dims bnds res padding min_len)"

text \<open>
  The same function with a bound on the depth of the call stack: \<open>get_dims_fuel n\<close>
  allows \<open>n\<close> nested activations and gives \<open>None\<close> when one more would be needed.
\<close>

fun get_dims_fuel :: "nat \<Rightarrow> bounds \<Rightarrow> pyval \<Rightarrow> pyval \<Rightarrow> pyval \<Rightarrow> (pyerror + dims) option" where
  "get_dims_fuel 0 bnds res padding min_len = None"
| "get_dims_fuel (Suc n) bnds res padding min_len =
     (case padded_dims bnds res padding min_len of Inl e \<Rightarrow> Some (Inl e)
      | Inr ((b, width, height), r, m) \<Rightarrow>
        if of_int width < m then
          (case bind_get_dims [(''x_buffer'', PyInt \<lceil>((m - of_int width) / 2) * r\<rceil>),
                               (''y_buffer'', PyInt 0)] of
             Inl e \<Rightarrow> Some (Inl e)
           | Inr (res', padding', min_len') \<Rightarrow> get_dims_fuel n b res' padding' min_len')
        else if of_int height < m then
          (case bind_get_dims [(''x_buffer'', PyInt 0),
                               (''y_buffer'', PyInt \<lceil>((m - of_int height) / 2) * r\<rceil>)] of
             Inl e \<Rightarrow> Some (Inl e)
           | Inr (res', padding', min_len') \<Rightarrow> get_dims_fuel n b res' padding' min_len')
        else Some (Inr (b, width, height)))"

section \<open>The polygon tiler\<close>

subsection \<open>Cut lines\<close>

datatype linestring = LineString "(real \<times> real) list"

text \<open>
  \<^verbatim>\<open>np.linspace(start, stop, num)\<close>: \<open>num\<close> evenly spaced samples from \<open>start\<close> to
  \<open>stop\<close>, both included; a negative \<open>num\<close> raises \<^verbatim>\<open>ValueError\<close>.
\<close>

definition linspace :: "real \<Rightarrow> real \<Rightarrow> int \<Rightarrow> pyerror + real list" where
  "linspace start stop num =
     (if num < 0 then Inl ValueError
      else Inr (map (\<lambda>i. start + of_nat i * ((stop - start) / of_int (num - 1))) [0..<nat num]))"

text \<open>
  \<^verbatim>\<open>np.linspace(lo, hi, 1+int(np.ceil((hi-lo) / res / max_len)))[1:-1]\<close>. The slice
  \<^verbatim>\<open>[1:-1]\<close> drops the first and the last sample. The operands of the divisions are
  Python numbers, so a zero divisor raises.
\<close>

definition cut_positions :: "real \<Rightarrow> real \<Rightarrow> real \<Rightarrow> int \<Rightarrow> pyerror + real list" where
  "cut_positions lo hi res max_len =
     (if res = 0 \<or> max_len = 0 then Inl ZeroDivisionError
      else case linspace lo hi (1 + \<lceil>(hi - lo) / res / of_int max_len\<rceil>) of
             Inl e \<Rightarrow> Inl e
           | Inr samples \<Rightarrow> Inr (butlast (tl samples)))"

text \<open>Lines 48 to 56 of \<^verbatim>\<open>split_geom\<close>: the list \<^verbatim>\<open>lines\<close>.\<close>

definition cut_lines :: "bounds \<Rightarrow> int \<Rightarrow> int \<Rightarrow> real \<Rightarrow> int \<Rightarrow> pyerror + linestring list" where
  "cut_lines b width height res max_len =
     (case b of (minx, miny, maxx, maxy) \<Rightarrow>
     (case (if width > max_len then cut_positions minx maxx res max_len else Inr []) of
        Inl e \<Rightarrow> Inl e
      | Inr xlines \<Rightarrow>
     (case (if height > max_len then cut_positions miny maxy res max_len else Inr []) of
        Inl e \<Rightarrow> Inl e
      | Inr ylines \<Rightarrow>
          Inr (map (\<lambda>xline. LineString [(xline, miny), (xline, maxy)]) xlines @
               map (\<lambda>yline. LineString [(minx, yline), (maxx, yline)]) ylines))))"

text \<open>
  \<^verbatim>\<open>split_geom(geometry, crs, res, max_len, buffer, **kwargs)\<close> forwards its extra
  keywords to \<^verbatim>\<open>get_dims\<close>. A keyword that names one of its own parameters is a second
  value for that parameter and raises \<^verbatim>\<open>TypeError\<close> at the call.
\<close>

definition split_geom_params :: "string list" where
  "split_geom_params = [''geometry'', ''crs'', ''res'', ''max_len'', ''buffer'']"

text \<open>Lines 47 to 56: from the bounds of the geometry to the cut lines.\<close>

definition split_lines :: "bounds \<Rightarrow> real \<Rightarrow> int \<Rightarrow> kwargs \<Rightarrow> pyerror + linestring list" where
  "split_lines gbounds res max_len kw =
     (if list_ex (\<lambda>k. k \<in> set split_geom_params) (map fst kw) then Inl TypeError
      else case call_get_dims gbounds kw of
             Inl e \<Rightarrow> Inl e
           | Inr (b, width, height) \<Rightarrow> cut_lines b width height res max_len)"

subsection \<open>The geometry capability\<close>

text \<open>
  The operations of shapely and geopandas that \<^verbatim>\<open>split_geom\<close> uses, as a record of
  functions on a type \<open>'g\<close> of geometries. \<open>g_split\<close> is
  \<^verbatim>\<open>split(geometry, line).geoms\<close>, \<open>g_polygonize\<close> stands for
  \<^verbatim>\<open>list(polygonize(gpd.GeoSeries(geoms, crs=crs).exterior.union_all()))\<close>, and
  \<open>g_buffer\<close> for \<^verbatim>\<open>buffer(buffer, cap_style='square', join_style='mitre')\<close>. The
  operations are total functions: a failure inside the geometry library is outside the
  model.
\<close>

record 'g geom_ops =
  g_bounds :: "'g \<Rightarrow> bounds"
  g_split :: "'g \<Rightarrow> linestring \<Rightarrow> 'g list"
  g_polygonize :: "string \<Rightarrow> 'g list \<Rightarrow> 'g list"
  g_area :: "'g \<Rightarrow> real"
  g_intersection :: "'g \<Rightarrow> 'g \<Rightarrow> 'g"
  g_touches :: "'g \<Rightarrow> 'g \<Rightarrow> bool"
  g_union :: "'g \<Rightarrow> 'g \<Rightarrow> 'g"
  g_buffer :: "int \<Rightarrow> 'g \<Rightarrow> 'g"

subsection \<open>Regions, slivers and tiles\<close>

text \<open>A GeoDataFrame is a list of rows, each an index label and a geometry.\<close>

type_synonym 'g gdf = "(nat \<times> 'g) list"

text \<open>
  Lines 59 to 65: every line splits the input geometry, the regions are rebuilt from the
  fragments, and the two area filters are applied. Filtering keeps the labels.
\<close>

definition candidate_regions :: "'g geom_ops \<Rightarrow> 'g \<Rightarrow> string \<Rightarrow> linestring list \<Rightarrow> 'g gdf" where
  "candidate_regions ops geometry crs lines =
     (let geoms = concat (map (\<lambda>line. g_split ops geometry line) lines);
          regions = g_polygonize ops crs geoms;
          gdf = zip [0..<length regions] regions;
          gdf = filter (\<lambda>(i, g). g_area ops g > 1) gdf;
          gdf = filter (\<lambda>(i, g). g_area ops (g_intersection ops g geometry) > 10) gdf
      in gdf)"

definition slivers_of :: "'g geom_ops \<Rightarrow> 'g gdf \<Rightarrow> 'g gdf" where
  "slivers_of ops gdf = filter (\<lambda>(i, g). g_area ops g < 100) gdf"

definition tiles_of :: "'g geom_ops \<Rightarrow> 'g gdf \<Rightarrow> 'g gdf" where
  "tiles_of ops gdf = filter (\<lambda>(i, g). g_area ops g \<ge> 100) gdf"

text \<open>\<^verbatim>\<open>gdf.loc[name, 'geometry'] = v\<close>: the rows labelled \<open>name\<close> get the geometry \<open>v\<close>.\<close>

definition loc_set :: "'g gdf \<Rightarrow> nat \<Rightarrow> 'g \<Rightarrow> 'g gdf" where
  "loc_set gdf name v = map (\<lambda>(i, g). if i = name then (i, v) else (i, g)) gdf"

text \<open>The body of the loop over the slivers, lines 70 to 73.\<close>

definition absorb_sliver :: "'g geom_ops \<Rightarrow> 'g gdf \<Rightarrow> 'g \<Rightarrow> 'g gdf" where
  "absorb_sliver ops gdf sliver =
     (let nbs = filter (\<lambda>(i, g). g_touches ops g sliver) gdf
      in case nbs of
           [] \<Rightarrow> gdf
         | (name, nb) # _ \<Rightarrow> loc_set gdf name (g_union ops nb sliver))"

fun absorb_slivers :: "'g geom_ops \<Rightarrow> 'g gdf \<Rightarrow> 'g gdf \<Rightarrow> 'g gdf" where
  "absorb_slivers ops [] gdf = gdf"
| "absorb_slivers ops ((i, sliver) # slivers) gdf =
     absorb_slivers ops slivers (absorb_sliver ops gdf sliver)"

text \<open>
  Lines 59 to 76, the path taken when there is a cut line. \<^verbatim>\<open>reset_index(drop=True)\<close>
  relabels the rows by position, so the result is the list of their geometries.
\<close>

definition split_tiles :: "'g geom_ops \<Rightarrow> 'g \<Rightarrow> string \<Rightarrow> linestring list \<Rightarrow> int \<Rightarrow> 'g list" where
  "split_tiles ops geometry crs lines buffer =
     (let gdf = candidate_regions ops geometry crs lines;
          slivers = slivers_of ops gdf;
          gdf = tiles_of ops gdf;
          gdf = absorb_slivers ops slivers gdf;
          gdf = map (\<lambda>(i, g). (i, g_buffer ops buffer g)) gdf
      in map snd gdf)"

definition split_geom ::
  "'g geom_ops \<Rightarrow> 'g \<Rightarrow> string \<Rightarrow> real \<Rightarrow> int \<Rightarrow> int \<Rightarrow> kwargs \<Rightarrow> pyerror + 'g list" where
  "split_geom ops geometry crs res max_len buffer kw =
     (case split_lines (g_bounds ops geometry) res max_len kw of
        Inl e \<Rightarrow> Inl e
      | Inr lines \<Rightarrow>
          if length lines = 0 then Inr [geometry]
          else Inr (split_tiles ops geometry crs lines buffer))"

subsection \<open>A geometry capability on axis-aligned boxes\<close>

text \<open>
  To run the tiler on examples, a capability whose geometries are lists of axis-aligned
  boxes \<open>(minx, miny, maxx, maxy)\<close> with disjoint interiors: one box is a rectangular
  polygon, several are a multi-part polygon.
\<close>

type_synonym box = "real \<times> real \<times> real \<times> real"

fun box_hull :: "box \<Rightarrow> box \<Rightarrow> box" where
  "box_hull (a, b, c, d) (a', b', c', d') = (min a a', min b b', max c c', max d d')"

fun boxes_bounds :: "box list \<Rightarrow> bounds" where
  "boxes_bounds [] = (0, 0, 0, 0)"
| "boxes_bounds (x # xs) = foldr box_hull xs x"

text \<open>A vertical or horizontal line cuts the boxes it crosses from side to side.\<close>

fun box_split :: "linestring \<Rightarrow> box \<Rightarrow> box list" where
  "box_split (LineString [(x0, y0), (x1, y1)]) (a, b, c, d) =
     (if x0 = x1 \<and> a < x0 \<and> x0 < c \<and> min y0 y1 \<le> b \<and> d \<le> max y0 y1
        then [(a, b, x0, d), (x0, b, c, d)]
      else if y0 = y1 \<and> b < y0 \<and> y0 < d \<and> min x0 x1 \<le> a \<and> c \<le> max x0 x1
        then [(a, b, c, y0), (a, y0, c, d)]
      else [(a, b, c, d)])"
| "box_split _ bx = [bx]"

definition boxes_split :: "box list \<Rightarrow> linestring \<Rightarrow> box list list" where
  "boxes_split g line = map (\<lambda>bx. [bx]) (concat (map (box_split line) g))"

fun box_inside :: "box \<Rightarrow> box \<Rightarrow> bool" where
  "box_inside (a, b, c, d) (a', b', c', d') = (a' \<le> a \<and> b' \<le> b \<and> c \<le> c' \<and> d \<le> d')"

text \<open>
  The regions enclosed by the outlines of the fragments: the cells of the grid through
  all their sides that lie in a fragment.
\<close>

definition boxes_polygonize :: "string \<Rightarrow> box list list \<Rightarrow> box list list" where
  "boxes_polygonize crs geoms =
     (let bxs = concat geoms;
          xs = sort (remdups (concat (map (\<lambda>(a, b, c, d). [a, c]) bxs)));
          ys = sort (remdups (concat (map (\<lambda>(a, b, c, d). [b, d]) bxs)));
          cells = concat (map (\<lambda>(x, x'). map (\<lambda>(y, y'). (x, y, x', y')) (zip ys (tl ys)))
                              (zip xs (tl xs)))
      in map (\<lambda>cell. [cell]) (filter (\<lambda>cell. list_ex (box_inside cell) bxs) cells))"

fun box_area :: "box \<Rightarrow> real" where
  "box_area (a, b, c, d) = \<bar>c - a\<bar> * \<bar>d - b\<bar>"

definition boxes_area :: "box list \<Rightarrow> real" where
  "boxes_area g = sum_list (map box_area g)"

fun box_meet :: "box \<Rightarrow> box \<Rightarrow> box" where
  "box_meet (a, b, c, d) (a', b', c', d') = (max a a', max b b', min c c', min d d')"

fun box_proper :: "box \<Rightarrow> bool" where
  "box_proper (a, b, c, d) = (a < c \<and> b < d)"

fun box_nonempty :: "box \<Rightarrow> bool" where
  "box_nonempty (a, b, c, d) = (a \<le> c \<and> b \<le> d)"

definition boxes_intersection :: "box list \<Rightarrow> box list \<Rightarrow> box list" where
  "boxes_intersection g h =
     filter box_proper (concat (map (\<lambda>bx. map (box_meet bx) h) g))"

text \<open>Two geometries touch when they share a point but no interior point.\<close>

definition boxes_touches :: "box list \<Rightarrow> box list \<Rightarrow> bool" where
  "boxes_touches g h =
     (list_ex (\<lambda>bx. list_ex (\<lambda>by. box_nonempty (box_meet bx by)) h) g \<and>
      \<not> list_ex (\<lambda>bx. list_ex (\<lambda>by. box_proper (box_meet bx by)) h) g)"

fun box_grow :: "int \<Rightarrow> box \<Rightarrow> box" where
  "box_grow n (a, b, c, d) = (a - of_int n, b - of_int n, c + of_int n, d + of_int n)"

definition box_ops :: "(box list) geom_ops" where
  "box_ops = \<lparr> g_bounds = boxes_bounds,
               g_split = boxes_split,
               g_polygonize = boxes_polygonize,
               g_area = boxes_area,
               g_intersection = boxes_intersection,
               g_touches = boxes_touches,
               g_union = (\<lambda>g h. g @ h),
               g_buffer = (\<lambda>n g. map (box_grow n) g) \<rparr>"

subsection \<open>The cut positions in the words of the design\<close>

text \<open>
  The design places \<open>n\<close> evenly spaced lines strictly between the two ends of an axis:
  they divide \<open>[lo, hi]\<close> into \<open>n + 1\<close> equal parts. This definition follows those
  words; it is compared with \<open>cut_positions\<close> below.
\<close>

definition evenly_spaced :: "real \<Rightarrow> real \<Rightarrow> nat \<Rightarrow> real list" where
  "evenly_spaced lo hi n =
     map (\<lambda>i. lo + of_nat i * ((hi - lo) / of_nat (Suc n))) [1..<Suc n]"

section \<open>Properties of the dimension resolver\<close>

lemma bind_get_dims_x_buffer:
  "bind_get_dims ((''x_buffer'', v) # kw) = Inl TypeError"
  by (simp add: bind_get_dims_def get_dims_keywords_def)

text \<open>
  The recursive call is never entered: binding its keywords fails. So \<^verbatim>\<open>get_dims\<close>
  returns exactly when no axis is shorter than \<^verbatim>\<open>min_len\<close>, and raises otherwise.
\<close>

lemma get_dims_unfold:
  "get_dims bnds res padding min_len =
     (case padded_dims bnds res padding min_len of
        Inl e \<Rightarrow> Inl e
      | Inr ((b, width, height), r, m) \<Rightarrow>
          if of_int width < m \<or> of_int height < m then Inl TypeError
          else Inr (b, width, height))"
  by (simp add: bind_get_dims_x_buffer split: sum.splits prod.splits)

lemma get_dims_fuel_Suc:
  "get_dims_fuel (Suc n) bnds res padding min_len = Some (get_dims bnds res padding min_len)"
  by (simp add: bind_get_dims_x_buffer split: sum.splits prod.splits)

declare get_dims.simps [simp del]

lemma padded_dims_None:
  assumes "num_of res = Inr r" and "r \<noteq> 0" and "num_of min_len = Inr m"
  shows "padded_dims (minx, miny, maxx, maxy) res PyNone min_len =
           Inr (((minx, miny, maxx, maxy),
                 py_int ((maxx - minx) / r), py_int ((maxy - miny) / r)), r, m)"
  using assms by (simp add: padded_dims_def)

lemma padded_dims_Inr:
  assumes "padded_dims bnds res padding min_len = Inr (((minx, miny, maxx, maxy), w, h), r, m)"
  shows "num_of res = Inr r \<and> r \<noteq> 0 \<and> num_of min_len = Inr m \<and>
         w = py_int ((maxx - minx) / r) \<and> h = py_int ((maxy - miny) / r)"
  using assms
  by (auto simp: padded_dims_def split: sum.splits prod.splits if_splits)

lemma get_dims_Inr:
  assumes "get_dims bnds res padding min_len = Inr ((minx, miny, maxx, maxy), w, h)"
  shows "\<exists>r m. num_of res = Inr r \<and> r \<noteq> 0 \<and> num_of min_len = Inr m \<and>
           w = py_int ((maxx - minx) / r) \<and> h = py_int ((maxy - miny) / r) \<and>
           m \<le> of_int w \<and> m \<le> of_int h"
proof -
  from assms obtain r m where
    pd: "padded_dims bnds res padding min_len = Inr (((minx, miny, maxx, maxy), w, h), r, m)"
    and ok: "\<not> (of_int w < m \<or> of_int h < m)"
    by (auto simp: get_dims_unfold split: sum.splits prod.splits if_splits)
  from padded_dims_Inr[OF pd] ok show ?thesis by auto
qed

lemma bind_get_dims_no_res:
  assumes "''res'' \<notin> set (map fst kw)"
    and "bind_get_dims kw = Inr (res, padding, min_len)"
  shows "res = PyFloat (1/8)"
proof -
  from assms(1) have "map_of kw ''res'' = None"
    by (simp add: map_of_eq_None_iff)
  with assms(2) show ?thesis
    by (auto simp: bind_get_dims_def kw_default_def split: if_splits)
qed

lemma call_get_dims_no_res:
  assumes "''res'' \<notin> set (map fst kw)"
    and "call_get_dims gbounds kw = Inr ((minx, miny, maxx, maxy), w, h)"
  shows "w = py_int ((maxx - minx) / (1/8)) \<and> h = py_int ((maxy - miny) / (1/8))"
proof -
  from assms(2) obtain res padding min_len where
    b: "bind_get_dims kw = Inr (res, padding, min_len)"
    and g: "get_dims gbounds res padding min_len = Inr ((minx, miny, maxx, maxy), w, h)"
    by (auto simp: call_get_dims_def split: sum.splits prod.splits)
  from bind_get_dims_no_res[OF assms(1) b] have res: "num_of res = Inr (1/8)" by simp
  from get_dims_Inr[OF g] obtain r m where
    r: "num_of res = Inr r"
    and wh: "w = py_int ((maxx - minx) / r)" "h = py_int ((maxy - miny) / r)"
    by blast
  from res r have "r = 1/8" by simp
  with wh show ?thesis by blast
qed

lemma get_dims_deficient_axis:
  assumes "padded_dims bnds res padding min_len = Inr ((b, width, height), r, m)"
    and "of_int width < m \<or> of_int height < m"
  shows "get_dims bnds res padding min_len = Inl TypeError"
  using assms by (simp add: get_dims_unfold)

lemma py_int_pos: "0 < py_int x \<Longrightarrow> 0 < x"
  by (auto simp: py_int_def split: if_splits)

text \<open>
  Claim C1. The resolver is to return, for every bounds, resolution and minimum, a width
  and a height that are at least the minimum, by growing the deficient axis. On the
  bounds \<open>(0, 0, 10, 10)\<close> at resolution 1 with the minimum 256 the width is 10, the
  corrective call is made with the keywords \<^verbatim>\<open>x_buffer\<close> and \<^verbatim>\<open>y_buffer\<close>, which
  are no parameters of \<^verbatim>\<open>get_dims\<close>, and the call raises \<^verbatim>\<open>TypeError\<close>: nothing is
  returned.
\<close>

theorem get_dims_deficient_raises:
  "get_dims (0, 0, 10, 10) (PyFloat 1) PyNone (PyInt 256) = Inl TypeError"
  by (simp add: get_dims_unfold padded_dims_def py_int_def)

text \<open>
  Claim C7. The resolver is to make at most one corrective re-resolution per axis, so at
  most two recursive steps, and then return. Every run does end (\<open>get_dims_fuel_Suc\<close>:
  one activation always suffices), but a run that needs a correction does not return: on
  the bounds \<open>(0, 0, 1000, 10)\<close> at resolution 1 the width 1000 is enough, the height 10
  is below 256, and with room for two corrective steps the run ends in the
  \<^verbatim>\<open>TypeError\<close> of the corrective call, which is never entered.
\<close>

theorem get_dims_correction_raises:
  "get_dims_fuel (Suc (Suc (Suc 0))) (0, 0, 1000, 10) (PyFloat 1) PyNone (PyInt 256) =
     Some (Inl TypeError) \<and>
   get_dims (0, 0, 1000, 10) (PyFloat 1) PyNone (PyInt 256) = Inl TypeError"
  by code_simp

text \<open>
  Claim C10. With no padding and a positive resolution, when the computed width and
  height are both at least \<^verbatim>\<open>min_len\<close>, the resolver returns the input bounds as they
  are, with that width and height.
\<close>

theorem get_dims_no_padding_keeps_bounds:
  assumes "num_of res = Inr r" and "0 < r" and "num_of min_len = Inr m"
    and "m \<le> of_int (py_int ((maxx - minx) / r))"
    and "m \<le> of_int (py_int ((maxy - miny) / r))"
  shows "get_dims (minx, miny, maxx, maxy) res PyNone min_len =
           Inr ((minx, miny, maxx, maxy),
                py_int ((maxx - minx) / r), py_int ((maxy - miny) / r))"
proof -
  from assms(2) have "r \<noteq> 0" by simp
  with assms(1,3) have
    "padded_dims (minx, miny, maxx, maxy) res PyNone min_len =
       Inr (((minx, miny, maxx, maxy),
             py_int ((maxx - minx) / r), py_int ((maxy - miny) / r)), r, m)"
    by (simp add: padded_dims_None)
  with assms(4,5) show ?thesis
    by (simp add: get_dims_unfold)
qed

theorem get_dims_no_padding_keeps_bounds_witness:
  "get_dims (0, 0, 1000, 1000) (PyFloat 1) PyNone (PyInt 256) =
     Inr ((0, 0, 1000, 1000), 1000, 1000)"
  using get_dims_no_padding_keeps_bounds
          [of "PyFloat 1" 1 "PyInt 256" 256 1000 0 1000 0]
  by (simp add: py_int_def)

section \<open>Properties of the cut lines\<close>

lemma upt_tl_butlast:
  assumes "0 < n"
  shows "butlast (tl (map f [0..<Suc n])) = map f [1..<n]"
proof -
  have "[0..<Suc n] = 0 # [1..<n] @ [n]"
    using assms by (metis One_nat_def Suc_leI upt_Suc_append upt_conv_Cons zero_less_Suc)
  then show ?thesis by (simp add: butlast_append)
qed

lemma cut_positions_evenly:
  assumes "0 < res" and "0 < max_len" and "lo < hi"
  shows "cut_positions lo hi res max_len =
           Inr (evenly_spaced lo hi (nat (\<lceil>(hi - lo) / res / of_int max_len\<rceil> - 1)))"
proof -
  define c where "c = \<lceil>(hi - lo) / res / of_int max_len\<rceil>"
  define f where "f = (\<lambda>i. lo + real i * ((hi - lo) / of_int c))"
  have "0 < (hi - lo) / res / of_int max_len"
    using assms by simp
  then have c: "1 \<le> c" unfolding c_def by linarith
  then have n: "nat (1 + c) = Suc (nat c)" and p: "0 < nat c"
    and s: "Suc (nat (c - 1)) = nat c" and r: "real (nat c) = of_int c"
    by simp_all
  have nz: "\<not> (res = 0 \<or> max_len = 0)" using assms by simp
  have nn: "\<not> 1 + c < 0" and c1: "1 + c - 1 = c" using c by simp_all
  have "linspace lo hi (1 + c) = Inr (map f [0..<Suc (nat c)])"
    unfolding linspace_def f_def by (simp only: nn if_False c1 n)
  then have "cut_positions lo hi res max_len = Inr (butlast (tl (map f [0..<Suc (nat c)])))"
    unfolding cut_positions_def c_def [symmetric] by (simp only: nz if_False sum.case)
  also have "butlast (tl (map f [0..<Suc (nat c)])) = map f [1..<nat c]"
    using p by (rule upt_tl_butlast)
  also have "map f [1..<nat c] = evenly_spaced lo hi (nat (c - 1))"
    unfolding evenly_spaced_def f_def by (simp only: s r)
  finally show ?thesis unfolding c_def .
qed

lemma evenly_spaced_length: "length (evenly_spaced lo hi n) = n"
  by (simp add: evenly_spaced_def)

lemma evenly_spaced_between:
  assumes "lo < hi" and "x \<in> set (evenly_spaced lo hi n)"
  shows "lo < x \<and> x < hi"
proof -
  define d where "d = (hi - lo) / of_nat (Suc n)"
  from assms(2) obtain i where i: "1 \<le> i" "i < Suc n" and x: "x = lo + of_nat i * d"
    by (auto simp: evenly_spaced_def d_def simp del: of_nat_Suc)
  have step: "0 < d" using assms(1) unfolding d_def by simp
  have "0 < real i" using i by simp
  then have "0 < real i * d" using step by (rule mult_pos_pos)
  moreover have "real i < real (Suc n)" using i by simp
  then have "real i * d < real (Suc n) * d"
    using step by (rule mult_strict_right_mono)
  moreover have "real (Suc n) * d = hi - lo"
    unfolding d_def by (simp del: of_nat_Suc)
  ultimately show ?thesis using x by linarith
qed

lemma evenly_spaced_increasing:
  assumes "lo < hi"
  shows "sorted_wrt (<) (evenly_spaced lo hi n)"
proof -
  define d where "d = (hi - lo) / of_nat (Suc n)"
  have step: "0 < d" using assms(1) unfolding d_def by simp
  have mono: "lo + real i * d < lo + real j * d" if "i < j" for i j :: nat
  proof -
    from that have "real i < real j" by simp
    then have "real i * d < real j * d" using step by (rule mult_strict_right_mono)
    then show ?thesis by simp
  qed
  have "sorted_wrt (<) [1..<Suc n]" by (rule sorted_wrt_upt)
  then have "sorted_wrt (\<lambda>i j. lo + real i * d < lo + real j * d) [1..<Suc n]"
    by (rule sorted_wrt_mono_rel[rotated]) (rule mono)
  then show ?thesis
    unfolding evenly_spaced_def sorted_wrt_map d_def .
qed


lemma split_geom_params_res:
  assumes "\<not> list_ex (\<lambda>k. k \<in> set split_geom_params) (map fst kw)"
  shows "''res'' \<notin> set (map fst kw)"
  using assms by (auto simp: list_ex_iff split_geom_params_def)

lemma evenly_spaced_count:
  assumes "0 < res" and "0 < max_len" and "lo < hi"
  shows "int (length (evenly_spaced lo hi (nat (\<lceil>(hi - lo) / res / of_int max_len\<rceil> - 1)))) =
           \<lceil>(hi - lo) / res / of_int max_len\<rceil> - 1"
proof -
  have "0 < (hi - lo) / res / of_int max_len"
    using assms by simp
  then have "1 \<le> \<lceil>(hi - lo) / res / of_int max_len\<rceil>" by linarith
  then show ?thesis by (simp add: evenly_spaced_length)
qed

text \<open>
  The layout of the lines the code does place, for a positive resolution and
  \<^verbatim>\<open>max_len\<close> and extra keywords that name no parameter of \<^verbatim>\<open>split_geom\<close>. The
  bounds, the width and the height are those the resolver returned, so the width is
  measured at the resolver's default resolution. When that width exceeds \<^verbatim>\<open>max_len\<close>
  there are exactly \<open>\<lceil>(maxx - minx) / res / max_len\<rceil> - 1\<close> evenly spaced vertical lines,
  each strictly between \<open>minx\<close> and \<open>maxx\<close> and running from \<open>miny\<close> to \<open>maxy\<close>, and
  likewise horizontal lines for the height; the vertical lines come first and each group
  is in increasing order.
\<close>

lemma split_lines_layout:
  assumes dims: "call_get_dims gbounds kw = Inr ((minx, miny, maxx, maxy), width, height)"
    and kw: "\<not> list_ex (\<lambda>k. k \<in> set split_geom_params) (map fst kw)"
    and res: "0 < res" and max_len: "0 < max_len"
    and xs: "xs = (if max_len < width
                   then evenly_spaced minx maxx (nat (\<lceil>(maxx - minx) / res / of_int max_len\<rceil> - 1))
                   else [])"
    and ys: "ys = (if max_len < height
                   then evenly_spaced miny maxy (nat (\<lceil>(maxy - miny) / res / of_int max_len\<rceil> - 1))
                   else [])"
  shows "split_lines gbounds res max_len kw =
           Inr (map (\<lambda>x. LineString [(x, miny), (x, maxy)]) xs @
                map (\<lambda>y. LineString [(minx, y), (maxx, y)]) ys) \<and>
         (max_len < width \<longrightarrow>
            int (length xs) = \<lceil>(maxx - minx) / res / of_int max_len\<rceil> - 1 \<and>
            (\<forall>x\<in>set xs. minx < x \<and> x < maxx) \<and> sorted_wrt (<) xs) \<and>
         (max_len < height \<longrightarrow>
            int (length ys) = \<lceil>(maxy - miny) / res / of_int max_len\<rceil> - 1 \<and>
            (\<forall>y\<in>set ys. miny < y \<and> y < maxy) \<and> sorted_wrt (<) ys)"
proof -
  from call_get_dims_no_res[OF split_geom_params_res[OF kw] dims]
  have w: "width = py_int ((maxx - minx) / (1/8))"
    and h: "height = py_int ((maxy - miny) / (1/8))" by simp_all
  have x_pos: "minx < maxx" if "max_len < width"
  proof -
    from that max_len w have "0 < py_int ((maxx - minx) / (1/8))" by simp
    then have "0 < (maxx - minx) / (1/8)" by (rule py_int_pos)
    then show ?thesis by simp
  qed
  have y_pos: "miny < maxy" if "max_len < height"
  proof -
    from that max_len h have "0 < py_int ((maxy - miny) / (1/8))" by simp
    then have "0 < (maxy - miny) / (1/8)" by (rule py_int_pos)
    then show ?thesis by simp
  qed
  have cx: "(if width > max_len then cut_positions minx maxx res max_len else Inr []) = Inr xs"
    using cut_positions_evenly[OF res max_len x_pos] xs by simp
  have cy: "(if height > max_len then cut_positions miny maxy res max_len else Inr []) = Inr ys"
    using cut_positions_evenly[OF res max_len y_pos] ys by simp
  have lines: "split_lines gbounds res max_len kw =
           Inr (map (\<lambda>x. LineString [(x, miny), (x, maxy)]) xs @
                map (\<lambda>y. LineString [(minx, y), (maxx, y)]) ys)"
    using kw by (simp add: split_lines_def dims cut_lines_def cx cy)
  have px: "int (length xs) = \<lceil>(maxx - minx) / res / of_int max_len\<rceil> - 1 \<and>
            (\<forall>x\<in>set xs. minx < x \<and> x < maxx) \<and> sorted_wrt (<) xs" if "max_len < width"
    using that xs x_pos[OF that] evenly_spaced_count[OF res max_len x_pos[OF that]]
      evenly_spaced_between[OF x_pos[OF that]] evenly_spaced_increasing[OF x_pos[OF that]]
    by simp
  have py: "int (length ys) = \<lceil>(maxy - miny) / res / of_int max_len\<rceil> - 1 \<and>
            (\<forall>y\<in>set ys. miny < y \<and> y < maxy) \<and> sorted_wrt (<) ys" if "max_len < height"
    using that ys y_pos[OF that] evenly_spaced_count[OF res max_len y_pos[OF that]]
      evenly_spaced_between[OF y_pos[OF that]] evenly_spaced_increasing[OF y_pos[OF that]]
    by simp
  from lines px py show ?thesis by blast
qed

lemma square_20000_dims: "call_get_dims (0, 0, 20000, 20000) [] = Inr ((0, 0, 20000, 20000), 160000, 160000)"
  by code_simp

lemma square_20000_cuts: "evenly_spaced 0 20000 4 = [4000, 8000, 12000, 16000]"
  by (simp add: evenly_spaced_def upt_rec)

lemma split_lines_layout_example:
  "split_lines (0, 0, 20000, 20000) 1 4000 [] =
     Inr [LineString [(4000, 0), (4000, 20000)], LineString [(8000, 0), (8000, 20000)],
          LineString [(12000, 0), (12000, 20000)], LineString [(16000, 0), (16000, 20000)],
          LineString [(0, 4000), (20000, 4000)], LineString [(0, 8000), (20000, 8000)],
          LineString [(0, 12000), (20000, 12000)], LineString [(0, 16000), (20000, 16000)]]"
proof -
  have kw: "\<not> list_ex (\<lambda>k. k \<in> set split_geom_params) (map fst ([] :: kwargs))" by simp
  have r: "(0::real) < 1" and m: "(0::int) < 4000" by simp_all
  from split_lines_layout[OF square_20000_dims kw r m refl refl]
  show ?thesis by (simp add: square_20000_cuts)
qed

section \<open>Properties of the tiler\<close>

subsection \<open>The path without cut lines\<close>

text \<open>
  Claim C8. When no cut line is generated, the tiler returns the input geometry alone
  and as it is: the overlap buffer is not applied, whatever its value and whatever the
  buffering operation does. Buffering belongs to the path with cut lines only.
\<close>

theorem split_geom_no_lines_unbuffered:
  assumes "split_lines (g_bounds ops geometry) res max_len kw = Inr []"
  shows "split_geom ops geometry crs res max_len buffer kw = Inr [geometry]"
  using assms by (simp add: split_geom_def)

lemma small_parts_lines: "split_lines (g_bounds box_ops [(0, 0, 1, 1), (39, 39, 40, 40)]) 1 4000 [] = Inr []"
  by code_simp

theorem split_geom_no_lines_unbuffered_witness:
  "split_geom box_ops [(0, 0, 1, 1), (39, 39, 40, 40)] ''EPSG:25832'' 1 4000 5 [] =
     Inr [[(0, 0, 1, 1), (39, 39, 40, 40)]] \<and>
   g_buffer box_ops 5 [(0, 0, 1, 1), (39, 39, 40, 40)] \<noteq> [(0, 0, 1, 1), (39, 39, 40, 40)]"
  using split_geom_no_lines_unbuffered[OF small_parts_lines, of "''EPSG:25832''" 5]
  by (simp add: box_ops_def)

subsection \<open>Sliver absorption\<close>

lemma loc_set_labels: "map fst (loc_set gdf name v) = map fst gdf"
  by (induction gdf) (auto simp: loc_set_def)

lemma absorb_sliver_labels: "map fst (absorb_sliver ops gdf sliver) = map fst gdf"
  by (simp add: absorb_sliver_def Let_def loc_set_labels split: list.splits prod.splits)

lemma absorb_slivers_labels: "map fst (absorb_slivers ops slivers gdf) = map fst gdf"
  by (induction ops slivers gdf rule: absorb_slivers.induct) (simp_all add: absorb_sliver_labels)

lemma loc_set_distinct:
  assumes "distinct (map fst gdf)" and "k < length gdf"
  shows "loc_set gdf (fst (gdf ! k)) v = gdf[k := (fst (gdf ! k), v)]"
proof (rule nth_equalityI)
  show "length (loc_set gdf (fst (gdf ! k)) v) = length (gdf[k := (fst (gdf ! k), v)])"
    by (simp add: loc_set_def)
next
  fix j assume "j < length (loc_set gdf (fst (gdf ! k)) v)"
  then have j: "j < length gdf" by (simp add: loc_set_def)
  have "fst (gdf ! j) = fst (gdf ! k) \<longleftrightarrow> j = k"
    using assms j by (metis distinct_conv_nth length_map nth_map)
  then show "loc_set gdf (fst (gdf ! k)) v ! j = gdf[k := (fst (gdf ! k), v)] ! j"
    using j by (cases "gdf ! j") (auto simp: loc_set_def nth_list_update)
qed

lemma filter_first:
  assumes "filter P xs = y # ys"
  shows "\<exists>k<length xs. xs ! k = y \<and> P y \<and> (\<forall>j<k. \<not> P (xs ! j))"
  using assms
proof (induction xs)
  case Nil
  then show ?case by simp
next
  case (Cons x xs)
  show ?case
  proof (cases "P x")
    case True
    with Cons.prems have "x = y" by simp
    with True show ?thesis by (intro exI[of _ 0]) simp
  next
    case False
    with Cons.prems have "filter P xs = y # ys" by simp
    from Cons.IH[OF this] obtain k where
      k: "k < length xs" "xs ! k = y" "P y" "\<forall>j<k. \<not> P (xs ! j)" by blast
    have "\<forall>j<Suc k. \<not> P ((x # xs) ! j)"
      using False k(4) by (simp add: nth_Cons split: nat.splits)
    with k show ?thesis by (intro exI[of _ "Suc k"]) simp
  qed
qed

lemma absorb_sliver_cases:
  assumes "distinct (map fst gdf)"
  shows "((\<forall>row\<in>set gdf. \<not> g_touches ops (snd row) sliver) \<and>
            absorb_sliver ops gdf sliver = gdf) \<or>
         (\<exists>k<length gdf. g_touches ops (snd (gdf ! k)) sliver \<and>
            (\<forall>j<k. \<not> g_touches ops (snd (gdf ! j)) sliver) \<and>
            absorb_sliver ops gdf sliver =
              gdf[k := (fst (gdf ! k), g_union ops (snd (gdf ! k)) sliver)])"
proof (cases "filter (\<lambda>(i, g). g_touches ops g sliver) gdf")
  case Nil
  then have "\<forall>row\<in>set gdf. \<not> g_touches ops (snd row) sliver"
    by (auto simp: filter_empty_conv)
  moreover from Nil have "absorb_sliver ops gdf sliver = gdf"
    by (simp add: absorb_sliver_def)
  ultimately show ?thesis by blast
next
  case (Cons row rows)
  obtain name nb where row: "row = (name, nb)" by (cases row)
  from filter_first[OF Cons] obtain k where
    k: "k < length gdf" "gdf ! k = row" "g_touches ops nb sliver"
       "\<forall>j<k. \<not> (case gdf ! j of (i, g) \<Rightarrow> g_touches ops g sliver)"
    using row by auto
  have "absorb_sliver ops gdf sliver = loc_set gdf name (g_union ops nb sliver)"
    using Cons row by (simp add: absorb_sliver_def)
  also have "\<dots> = gdf[k := (fst (gdf ! k), g_union ops (snd (gdf ! k)) sliver)]"
    using loc_set_distinct[OF assms k(1)] k(2) row by simp
  finally have "absorb_sliver ops gdf sliver =
      gdf[k := (fst (gdf ! k), g_union ops (snd (gdf ! k)) sliver)]" .
  moreover have "g_touches ops (snd (gdf ! k)) sliver" using k(2,3) row by simp
  moreover have "\<forall>j<k. \<not> g_touches ops (snd (gdf ! j)) sliver"
    using k(4) by (auto simp: case_prod_beta)
  ultimately show ?thesis using k(1) by blast
qed

lemma candidate_regions_distinct:
  "distinct (map fst (candidate_regions ops geometry crs lines))"
  by (simp add: candidate_regions_def Let_def distinct_map_filter)


lemma absorb_slivers_snoc:
  "absorb_slivers ops (processed @ [(i, sliver)]) gdf =
     absorb_sliver ops (absorb_slivers ops processed gdf) sliver"
  by (induction ops processed gdf rule: absorb_slivers.induct) simp_all

lemma tiles_slivers_disjoint:
  assumes "distinct (map fst cands)"
  shows "set (map fst (tiles_of ops cands)) \<inter> set (map fst (slivers_of ops cands)) = {}"
proof (rule ccontr)
  assume "\<not> ?thesis"
  then obtain i g g' where t: "(i, g) \<in> set (tiles_of ops cands)"
    and s: "(i, g') \<in> set (slivers_of ops cands)"
    by (auto simp: set_eq_iff)
  from t have gt: "(i, g) \<in> set cands" "100 \<le> g_area ops g"
    by (auto simp: tiles_of_def)
  from s have gs: "(i, g') \<in> set cands" "g_area ops g' < 100"
    by (auto simp: slivers_of_def)
  from assms gt(1) gs(1) have "g = g'" by (rule eq_key_imp_eq_value)
  with gt(2) gs(2) show False by simp
qed

text \<open>
  Claim C9. During sliver absorption the frame that receives the merges holds, at every
  moment, exactly the rows of the regions of area at least 100: after any slivers have
  been processed its labels are those of the tiles, each such region has area at least
  100, and no label of a sliver is among them, so a sliver is never merged into a sliver.
  Processing one more sliver either leaves the frame as it is (no row touches the sliver,
  which is dropped) or replaces, in place, the geometry of the first row that touches it
  by the union of that geometry with the sliver, and changes no other row.
\<close>

theorem sliver_merge_targets:
  assumes cands: "cands = candidate_regions ops geometry crs lines"
    and gdf: "gdf = absorb_slivers ops processed (tiles_of ops cands)"
  shows "map fst gdf = map fst (tiles_of ops cands) \<and>
         (\<forall>row\<in>set (tiles_of ops cands). 100 \<le> g_area ops (snd row)) \<and>
         set (map fst gdf) \<inter> set (map fst (slivers_of ops cands)) = {} \<and>
         absorb_slivers ops (processed @ [(i, sliver)]) (tiles_of ops cands) =
           absorb_sliver ops gdf sliver \<and>
         (((\<forall>row\<in>set gdf. \<not> g_touches ops (snd row) sliver) \<and>
            absorb_sliver ops gdf sliver = gdf) \<or>
          (\<exists>k<length gdf. g_touches ops (snd (gdf ! k)) sliver \<and>
            (\<forall>j<k. \<not> g_touches ops (snd (gdf ! j)) sliver) \<and>
            absorb_sliver ops gdf sliver =
              gdf[k := (fst (gdf ! k), g_union ops (snd (gdf ! k)) sliver)]))"
proof -
  have d: "distinct (map fst cands)"
    unfolding cands by (rule candidate_regions_distinct)
  have labels: "map fst gdf = map fst (tiles_of ops cands)"
    unfolding gdf by (rule absorb_slivers_labels)
  have big: "\<forall>row\<in>set (tiles_of ops cands). 100 \<le> g_area ops (snd row)"
    by (auto simp: tiles_of_def)
  have apart: "set (map fst gdf) \<inter> set (map fst (slivers_of ops cands)) = {}"
    unfolding labels using d by (rule tiles_slivers_disjoint)
  have step: "absorb_slivers ops (processed @ [(i, sliver)]) (tiles_of ops cands) =
           absorb_sliver ops gdf sliver"
    unfolding gdf by (rule absorb_slivers_snoc)
  have "distinct (map fst (tiles_of ops cands))"
    using d by (simp add: tiles_of_def distinct_map_filter)
  then have "distinct (map fst gdf)" by (simp only: labels)
  from absorb_sliver_cases[OF this, of ops sliver] labels big apart step
  show ?thesis by blast
qed

lemma example_cands:
  "[(0, [(0, 0, 34, 40)]), (1, [(34, 0, 68, 40)]), (2, [(68, 0, 100, 40)]),
    (3, [(100, 0, 102, 40)])] =
   candidate_regions box_ops [(0, 0, 100, 40), (100, 0, 102, 40)] ''EPSG:25832''
     [LineString [(34, 0), (34, 40)], LineString [(68, 0), (68, 40)]]"
  by code_simp

lemma example_tiles:
  "tiles_of box_ops [(0, [(0, 0, 34, 40)]), (1, [(34, 0, 68, 40)]), (2, [(68, 0, 100, 40)]),
    (3, [(100, 0, 102, 40)])] = [(0, [(0, 0, 34, 40)]), (1, [(34, 0, 68, 40)]), (2, [(68, 0, 100, 40)])]"
  by code_simp

lemma example_slivers:
  "slivers_of box_ops [(0, [(0, 0, 34, 40)]), (1, [(34, 0, 68, 40)]), (2, [(68, 0, 100, 40)]),
    (3, [(100, 0, 102, 40)])] = [(3, [(100, 0, 102, 40)])]"
  by code_simp

lemma example_absorb:
  "absorb_sliver box_ops [(0, [(0, 0, 34, 40)]), (1, [(34, 0, 68, 40)]), (2, [(68, 0, 100, 40)])]
     [(100, 0, 102, 40)] =
   [(0, [(0, 0, 34, 40)]), (1, [(34, 0, 68, 40)]), (2, [(68, 0, 100, 40), (100, 0, 102, 40)])]"
  by code_simp

theorem sliver_merge_targets_witness:
  "absorb_slivers box_ops ([] @ [(3, [(100, 0, 102, 40)])])
     [(0, [(0, 0, 34, 40)]), (1, [(34, 0, 68, 40)]), (2, [(68, 0, 100, 40)])] =
   [(0, [(0, 0, 34, 40)]), (1, [(34, 0, 68, 40)]),
    (2, [(68, 0, 100, 40), (100, 0, 102, 40)])] \<and>
   set (map fst [(0::nat, [(0::real, 0::real, 34::real, 40::real)]), (1, [(34, 0, 68, 40)]), (2, [(68, 0, 100, 40)])]) \<inter>
     set (map fst [(3::nat, [(100::real, 0::real, 102::real, 40::real)])]) = {}"
proof -
  have gdf: "[(0, [(0, 0, 34, 40)]), (1, [(34, 0, 68, 40)]), (2, [(68, 0, 100, 40)])] =
      absorb_slivers box_ops []
        (tiles_of box_ops [(0, [(0, 0, 34, 40)]), (1, [(34, 0, 68, 40)]),
           (2, [(68, 0, 100, 40)]), (3, [(100, 0, 102, 40)])])"
    by (simp only: example_tiles absorb_slivers.simps)
  from sliver_merge_targets[OF example_cands gdf, of 3 "[(100, 0, 102, 40)]"]
  show ?thesis
    by (simp only: example_tiles example_slivers example_absorb)
qed

subsection \<open>Areas of the returned tiles\<close>

lemma loc_set_rows:
  assumes "row \<in> set (loc_set gdf name v)"
  shows "row \<in> set gdf \<or> snd row = v"
  using assms by (auto simp: loc_set_def split: if_splits)

lemma absorb_sliver_area:
  assumes union: "\<forall>a b. g_area ops a \<le> g_area ops (g_union ops a b)"
    and big: "\<forall>row\<in>set gdf. 100 \<le> g_area ops (snd row)"
  shows "\<forall>row\<in>set (absorb_sliver ops gdf sliver). 100 \<le> g_area ops (snd row)"
proof (cases "filter (\<lambda>(i, g). g_touches ops g sliver) gdf")
  case Nil
  then show ?thesis using big by (simp add: absorb_sliver_def)
next
  case (Cons nbrow rest)
  obtain name nb where nbrow: "nbrow = (name, nb)" by (cases nbrow)
  have "nbrow \<in> set (filter (\<lambda>(i, g). g_touches ops g sliver) gdf)"
    unfolding Cons by simp
  then have "(name, nb) \<in> set gdf" using nbrow by simp
  with big have "100 \<le> g_area ops nb" by fastforce
  also have "\<dots> \<le> g_area ops (g_union ops nb sliver)" using union by blast
  finally have new: "100 \<le> g_area ops (g_union ops nb sliver)" .
  have eq: "absorb_sliver ops gdf sliver = loc_set gdf name (g_union ops nb sliver)"
    using Cons nbrow by (simp add: absorb_sliver_def)
  show ?thesis
    unfolding eq using loc_set_rows[of _ gdf name "g_union ops nb sliver"] big new
    by metis
qed

lemma absorb_slivers_area:
  assumes union: "\<forall>a b. g_area ops a \<le> g_area ops (g_union ops a b)"
    and big: "\<forall>row\<in>set gdf. 100 \<le> g_area ops (snd row)"
  shows "\<forall>row\<in>set (absorb_slivers ops slivers gdf). 100 \<le> g_area ops (snd row)"
  using big
proof (induction slivers arbitrary: gdf)
  case Nil
  then show ?case by simp
next
  case (Cons s slivers)
  obtain i sliver where s: "s = (i, sliver)" by (cases s)
  have "\<forall>row\<in>set (absorb_sliver ops gdf sliver). 100 \<le> g_area ops (snd row)"
    using union Cons.prems by (rule absorb_sliver_area)
  then have "\<forall>row\<in>set (absorb_slivers ops slivers (absorb_sliver ops gdf sliver)).
               100 \<le> g_area ops (snd row)"
    by (rule Cons.IH)
  then show ?case by (simp add: s)
qed

lemma split_tiles_area:
  assumes union: "\<forall>a b. g_area ops a \<le> g_area ops (g_union ops a b)"
    and buf: "\<forall>a. g_area ops a \<le> g_area ops (g_buffer ops buffer a)"
  shows "\<forall>t\<in>set (split_tiles ops geometry crs lines buffer). 100 \<le> g_area ops t"
proof
  fix t assume "t \<in> set (split_tiles ops geometry crs lines buffer)"
  then obtain row where row: "row \<in> set (absorb_slivers ops
        (slivers_of ops (candidate_regions ops geometry crs lines))
        (tiles_of ops (candidate_regions ops geometry crs lines)))"
    and t: "t = g_buffer ops buffer (snd row)"
    by (auto simp: split_tiles_def Let_def)
  have "\<forall>row\<in>set (tiles_of ops (candidate_regions ops geometry crs lines)).
          100 \<le> g_area ops (snd row)"
    by (auto simp: tiles_of_def)
  from absorb_slivers_area[OF union this] row have "100 \<le> g_area ops (snd row)" by blast
  also have "\<dots> \<le> g_area ops t" unfolding t using buf by blast
  finally show "100 \<le> g_area ops t" .
qed

text \<open>
  Claim C5, as amended. When at least one cut line is generated, the tiler returns a
  tile set in which no tile has area below 100, provided that in the geometry capability
  a union is never smaller than its first operand and the overlap buffer used does not
  shrink a geometry. (Without a cut line the input is returned as it is, whatever its
  area: see the counterexample below.)
\<close>

theorem split_geom_cut_tiles_area:
  assumes union: "\<forall>a b. g_area ops a \<le> g_area ops (g_union ops a b)"
    and buf: "\<forall>a. g_area ops a \<le> g_area ops (g_buffer ops buffer a)"
    and lines: "split_lines (g_bounds ops geometry) res max_len kw = Inr lines"
    and cut: "lines \<noteq> []"
  shows "\<exists>tiles. split_geom ops geometry crs res max_len buffer kw = Inr tiles \<and>
           (\<forall>t\<in>set tiles. 100 \<le> g_area ops t)"
proof -
  have "split_geom ops geometry crs res max_len buffer kw =
          Inr (split_tiles ops geometry crs lines buffer)"
    using lines cut by (simp add: split_geom_def)
  with split_tiles_area[OF union buf] show ?thesis by blast
qed

lemma box_area_nonneg: "0 \<le> box_area bx"
  by (cases bx) simp

lemma boxes_area_nonneg: "0 \<le> boxes_area g"
  unfolding boxes_area_def by (induction g) (simp_all add: box_area_nonneg)

lemma box_ops_union_area: "\<forall>a b. g_area box_ops a \<le> g_area box_ops (g_union box_ops a b)"
  using boxes_area_nonneg by (simp add: box_ops_def boxes_area_def)

lemma box_grow_0: "box_grow 0 = id"
  by (rule ext) auto

lemma box_ops_buffer_0: "\<forall>a. g_area box_ops a \<le> g_area box_ops (g_buffer box_ops 0 a)"
  by (simp add: box_ops_def box_grow_0)

lemma example_lines:
  "split_lines (g_bounds box_ops [(0, 0, 100, 40), (100, 0, 102, 40)]) 1 50 [] =
     Inr [LineString [(34, 0), (34, 40)], LineString [(68, 0), (68, 40)]]"
  by code_simp

lemma example_split:
  "split_geom box_ops [(0, 0, 100, 40), (100, 0, 102, 40)] ''EPSG:25832'' 1 50 0 [] =
     Inr [[(0, 0, 34, 40)], [(34, 0, 68, 40)], [(68, 0, 100, 40), (100, 0, 102, 40)]]"
  by code_simp

theorem split_geom_cut_tiles_area_witness:
  "split_geom box_ops [(0, 0, 100, 40), (100, 0, 102, 40)] ''EPSG:25832'' 1 50 0 [] =
     Inr [[(0, 0, 34, 40)], [(34, 0, 68, 40)], [(68, 0, 100, 40), (100, 0, 102, 40)]] \<and>
   100 \<le> g_area box_ops [(0, 0, 34, 40)] \<and>
   100 \<le> g_area box_ops [(34, 0, 68, 40)] \<and>
   100 \<le> g_area box_ops [(68, 0, 100, 40), (100, 0, 102, 40)]"
proof -
  have cut: "[LineString [(34, 0), (34, 40)], LineString [(68, 0), (68, 40)]] \<noteq> []" by simp
  from split_geom_cut_tiles_area[OF box_ops_union_area box_ops_buffer_0 example_lines cut,
         of "''EPSG:25832''"]
  obtain tiles where
    tiles: "split_geom box_ops [(0, 0, 100, 40), (100, 0, 102, 40)] ''EPSG:25832'' 1 50 0 [] =
              Inr tiles"
    and big: "\<forall>t\<in>set tiles. 100 \<le> g_area box_ops t"
    by blast
  from tiles have
    "tiles = [[(0, 0, 34, 40)], [(34, 0, 68, 40)], [(68, 0, 100, 40), (100, 0, 102, 40)]]"
    by (simp only: example_split sum.inject)
  with big tiles show ?thesis by simp
qed

text \<open>
  Claim C5 as stated fails on the path without cut lines: a two-part polygon of total
  area 8 whose bounds are 32 units wide and tall is returned unchanged.
\<close>

theorem split_geom_uncut_small_area_counterexample:
  "split_geom box_ops [(0, 0, 2, 2), (30, 30, 32, 32)] ''EPSG:25832'' 1 4000 0 [] =
     Inr [[(0, 0, 2, 2), (30, 30, 32, 32)]] \<and>
   g_area box_ops [(0, 0, 2, 2), (30, 30, 32, 32)] < 100"
  by code_simp

subsection \<open>Executions that depart from the design\<close>

text \<open>
  Claim C2. The width and height that decide whether to split are to be computed at the
  resolution given to the tiler. The tiler calls \<^verbatim>\<open>get_dims(geometry.bounds, **kwargs)\<close>
  and does not pass \<^verbatim>\<open>res\<close>, so they are computed at the default resolution 0.125. For
  a square of side 500 at resolution 1/16 the resolver gives 4000 by 4000 pixels where
  the square has 8000 by 8000, and with \<^verbatim>\<open>max_len\<close> 4000 the square is returned
  unsplit.
\<close>

theorem split_geom_ignores_res:
  "call_get_dims (g_bounds box_ops [(0, 0, 500, 500)]) [] =
     Inr ((0, 0, 500, 500), 4000, 4000) \<and>
   py_int ((500 - 0) / (1/16)) = 8000 \<and>
   split_geom box_ops [(0, 0, 500, 500)] ''EPSG:25832'' (1/16) 4000 0 [] =
     Inr [[(0, 0, 500, 500)]]"
  by code_simp

text \<open>
  Claim C6. When the width at the resolution given to the tiler exceeds \<^verbatim>\<open>max_len\<close>,
  the tiler is to place \<open>\<lceil>(maxx - minx) / res / max_len\<rceil> - 1\<close> vertical lines. A square of
  side 300 at resolution 1/16 is 4800 pixels wide, above the limit 4000, and the formula
  asks for one line. The tiler compares the width at the default resolution, 2400
  pixels, with the limit, and places no line at all.
\<close>

theorem split_lines_misses_cut:
  "py_int ((300 - 0) / (1/16)) = 4800 \<and>
   \<lceil>(300 - 0) / (1/16) / of_int 4000 :: real\<rceil> - 1 = 1 \<and>
   call_get_dims (g_bounds box_ops [(0, 0, 300, 300)]) [] =
     Inr ((0, 0, 300, 300), 2400, 2400) \<and>
   split_lines (g_bounds box_ops [(0, 0, 300, 300)]) (1/16) 4000 [] = Inr []"
  by code_simp

text \<open>
  Claim C3. The tiler is never to raise on a well-formed polygon. A square of side 10 has
  a width of 80 pixels at the default resolution, below the minimum 256; the resolver
  makes its corrective call, which raises \<^verbatim>\<open>TypeError\<close>, and the tiler raises with it.
\<close>

theorem split_geom_small_polygon_raises:
  "split_geom box_ops [(0, 0, 10, 10)] ''EPSG:25832'' 1 4000 0 [] = Inl TypeError"
  by code_simp

text \<open>
  Claim C4. A geometry whose width and height at the given resolution are within
  \<^verbatim>\<open>max_len\<close> is to be returned as the only tile. A rectangle of 4000.5 by 1000 units
  at resolution 1 is 4000 by 1000 pixels, within the limit 4000; the tiler measures
  32004 pixels at the default resolution, places a cut at 2000.25 and returns two tiles.
\<close>

theorem split_geom_splits_within_limit:
  "py_int ((8001 / 2 - 0) / 1) = 4000 \<and> py_int ((1000 - 0) / 1) = 1000 \<and>
   split_lines (0, 0, 8001 / 2, 1000) 1 4000 [] =
     Inr [LineString [(8001 / 4, 0), (8001 / 4, 1000)]] \<and>
   split_geom box_ops [(0, 0, 8001 / 2, 1000)] ''EPSG:25832'' 1 4000 0 [] =
     Inr [[(0, 0, 8001 / 4, 1000)], [(8001 / 4, 0, 8001 / 2, 1000)]]"
  by code_simp

end
